theory Spec2Isabelle
  imports Main "HOL-Library.Multiset"
begin

section \<open>Python values used by the dashboard script\<close>

text \<open>
  A Python \<open>str\<close> is a sequence of Unicode code points; it is modelled as a list of
  code points. The delimiter of line 120, a space, U+2192 (rightwards arrow) and a space,
  is three code points long.
\<close>

type_synonym pystr = "nat list"

definition delim :: pystr where
  "delim = [32, 8594, 32]"

text \<open>The exceptions the script can meet; \<open>ExternalError\<close> stands for whatever an
  external collaborator (CSV reader, scoring pipeline, layout, drawing) may raise.\<close>

datatype exn =
    KeyError string | IndexError | AttributeError | TypeError | ValueError | ExternalError

section \<open>\<open>str.split(sep)\<close>, line 120\<close>

text \<open>
  \<open>s.split(sep)\<close> scans \<open>s\<close> from the left; at the leftmost occurrence of \<open>sep\<close> it closes
  the current piece and goes on behind the occurrence. Nothing is trimmed and empty pieces
  are kept. An empty separator raises \<open>ValueError\<close>. \<open>cur\<close> is the piece being read.
\<close>

function split_scan :: "'a list \<Rightarrow> 'a list \<Rightarrow> 'a list \<Rightarrow> 'a list list" where
  "split_scan sep cur [] = [cur]"
| "split_scan sep cur (c # cs) =
     (if sep \<noteq> [] \<and> take (length sep) (c # cs) = sep
      then cur # split_scan sep [] (drop (length sep) (c # cs))
      else split_scan sep (cur @ [c]) cs)"
  by pat_completeness auto
termination
  by (relation "measure (\<lambda>(sep, cur, s). length s)") auto

definition py_split :: "'a list \<Rightarrow> 'a list \<Rightarrow> exn + 'a list list" where
  "py_split s sep = (if sep = [] then Inl ValueError else Inr (split_scan sep [] s))"

text \<open>\<open>sep.join(pieces)\<close>, used only to state what \<open>split\<close> returns.\<close>

fun py_join :: "'a list \<Rightarrow> 'a list list \<Rightarrow> 'a list" where
  "py_join sep [] = []"
| "py_join sep [t] = t"
| "py_join sep (t # u # ts) = t @ sep @ py_join sep (u # ts)"

text \<open>\<open>sep in t\<close>: the separator occurs in \<open>t\<close> at some offset.\<close>

fun occurs_in :: "'a list \<Rightarrow> 'a list \<Rightarrow> bool" where
  "occurs_in sep [] = (sep = [])"
| "occurs_in sep (c # cs) = (take (length sep) (c # cs) = sep \<or> occurs_in sep cs)"

section \<open>The directed graph of lines 118 to 127\<close>

text \<open>
  \<open>networkx.DiGraph\<close> keeps its nodes and its edges in dictionaries: a node or an ordered
  pair is stored once, in insertion order. \<open>add_node\<close> of a node already there leaves the
  graph as it is; \<open>add_edge u v\<close> first adds \<open>u\<close>, then \<open>v\<close>, when they are missing, and then
  the pair when it is missing.
\<close>

record 'a digraph =
  nodes :: "'a list"
  edges :: "('a \<times> 'a) list"

definition DiGraph :: "'a digraph" where
  "DiGraph = \<lparr>nodes = [], edges = []\<rparr>"

definition add_node :: "'a \<Rightarrow> 'a digraph \<Rightarrow> 'a digraph" where
  "add_node n G = (if n \<in> set (nodes G) then G else G\<lparr>nodes := nodes G @ [n]\<rparr>)"

definition add_edge :: "'a \<Rightarrow> 'a \<Rightarrow> 'a digraph \<Rightarrow> 'a digraph" where
  "add_edge u v G =
     (let G2 = add_node v (add_node u G)
      in if (u, v) \<in> set (edges G2) then G2 else G2\<lparr>edges := edges G2 @ [(u, v)]\<rparr>)"

text \<open>
  \<open>xs[i]\<close> for an index that is not negative: out of range it raises \<open>IndexError\<close>.
\<close>

definition item :: "'a list \<Rightarrow> nat \<Rightarrow> exn + 'a" where
  "item xs i = (if i < length xs then Inr (xs ! i) else Inl IndexError)"

text \<open>
  The body of the loop of lines 123 to 127 for the pair \<open>(i, p)\<close> that \<open>enumerate\<close> hands
  out. The guard \<open>i < len(processes) - 1\<close> is computed on Python's integers; the two reads
  \<open>processes[i]\<close> and \<open>processes[i+1]\<close> are checked reads.
\<close>

definition loop_body :: "'a list \<Rightarrow> 'a digraph \<Rightarrow> nat \<times> 'a \<Rightarrow> exn + 'a digraph" where
  "loop_body processes G ip =
     (case ip of (i, p) \<Rightarrow>
        (let G1 = add_node p G
         in if int i < int (length processes) - 1
            then (case item processes i of
                    Inl x \<Rightarrow> Inl x
                  | Inr u \<Rightarrow>
                      (case item processes (i + 1) of
                         Inl x \<Rightarrow> Inl x
                       | Inr v \<Rightarrow> Inr (add_edge u v G1)))
            else Inr G1))"

text \<open>A \<open>for\<close> loop whose body may raise: the first exception ends it.\<close>

fun for_each :: "('g \<Rightarrow> 'x \<Rightarrow> exn + 'g) \<Rightarrow> 'g \<Rightarrow> 'x list \<Rightarrow> exn + 'g" where
  "for_each body G [] = Inr G"
| "for_each body G (x # xs) =
     (case body G x of Inl e \<Rightarrow> Inl e | Inr G' \<Rightarrow> for_each body G' xs)"

definition build_graph :: "'a list \<Rightarrow> exn + 'a digraph" where
  "build_graph processes = for_each (loop_body processes) DiGraph (enumerate 0 processes)"

text \<open>The same loop, read along the list instead of along the indices, and with the
  reads that cannot fail left unchecked.\<close>

fun chain_loop :: "'a list \<Rightarrow> 'a digraph \<Rightarrow> 'a digraph" where
  "chain_loop [] G = G"
| "chain_loop [p] G = add_node p G"
| "chain_loop (p # q # ps) G = chain_loop (q # ps) (add_edge p q (add_node p G))"

text \<open>The consecutive pairs of a token sequence.\<close>

fun pairs_of :: "'a list \<Rightarrow> ('a \<times> 'a) list" where
  "pairs_of [] = []"
| "pairs_of [p] = []"
| "pairs_of (p # q # ps) = (p, q) # pairs_of (q # ps)"

section \<open>The result table and its ranking, lines 76 to 93\<close>

text \<open>
  A cell of a \<open>pandas.DataFrame\<close> holds a string, a number or \<open>NaN\<close> (a missing value).
  The type \<open>'s\<close> of the numbers is any linear order: of a score only its comparisons are
  used. A row lists its cells by column label; a label a row does not list reads as \<open>NaN\<close>.
\<close>

datatype 's cell = Str pystr | Num 's | NaN

type_synonym 's row = "(string \<times> 's cell) list"

record 's dataframe =
  columns :: "string list"
  rows :: "'s row list"

definition cell_at :: "'s row \<Rightarrow> string \<Rightarrow> 's cell" where
  "cell_at r c = (case map_of r c of None \<Rightarrow> NaN | Some v \<Rightarrow> v)"

definition column_values :: "string \<Rightarrow> 's dataframe \<Rightarrow> 's cell list" where
  "column_values c df = map (\<lambda>r. cell_at r c) (rows df)"

definition head :: "nat \<Rightarrow> 's dataframe \<Rightarrow> 's dataframe" where
  "head n df = df\<lparr>rows := take n (rows df)\<rparr>"

text \<open>
  \<open>df.sort_values(by, ascending=False)\<close> raises \<open>KeyError\<close> when the column is missing.
  Otherwise it computes an indexer from the column's values and returns a new frame with
  the rows taken in that order; the frame it is called on is left as it is. The script
  passes no \<open>kind\<close>, so the indexer comes from the library's default sort (quicksort), which
  the library documents as not stable. The indexer is therefore a parameter \<open>argsort\<close> of
  the model: a function of the key column that may also raise (a column mixing strings and
  numbers cannot be compared).
\<close>

definition sort_values ::
  "('s cell list \<Rightarrow> exn + nat list) \<Rightarrow> string \<Rightarrow> 's dataframe \<Rightarrow> exn + 's dataframe" where
  "sort_values argsort by df =
     (if by \<notin> set (columns df) then Inl (KeyError by)
      else case argsort (column_values by df) of
             Inl e \<Rightarrow> Inl e
           | Inr ix \<Rightarrow> Inr (df\<lparr>rows := map (\<lambda>i. rows df ! i) ix\<rparr>))"

text \<open>
  What the library promises of a descending sort of a numeric column: the indexer is a
  permutation of the positions, the numbers come first, largest first, and the missing
  values come last (\<open>na_position='last'\<close>). \<open>ranks_before a b\<close> says that a row with key \<open>a\<close>
  may stand before a row with key \<open>b\<close>.
\<close>

fun ranks_before :: "'s::linorder cell \<Rightarrow> 's cell \<Rightarrow> bool" where
  "ranks_before (Num x) (Num y) = (y \<le> x)"
| "ranks_before (Num x) NaN = True"
| "ranks_before NaN NaN = True"
| "ranks_before NaN (Num y) = False"
| "ranks_before (Str s) b = False"
| "ranks_before a (Str s) = False"

fun numeric :: "'s cell \<Rightarrow> bool" where
  "numeric (Str s) = False"
| "numeric (Num x) = True"
| "numeric NaN = True"

definition sort_contract :: "('s::linorder cell list \<Rightarrow> exn + nat list) \<Rightarrow> bool" where
  "sort_contract argsort =
     (\<forall>ks. list_all numeric ks \<longrightarrow>
        (case argsort ks of
           Inl e \<Rightarrow> False
         | Inr ix \<Rightarrow> mset ix = mset [0..<length ks] \<and>
                    sorted_wrt ranks_before (map (\<lambda>i. ks ! i) ix)))"

text \<open>
  The stable descending sort the specification speaks of: among equal keys the earlier
  element stays first. \<open>insert_desc\<close> puts \<open>x\<close>, which stood before all of \<open>ys\<close>, in front of
  the first element that need not precede it.
\<close>

fun insert_desc :: "('a \<Rightarrow> 's::linorder cell) \<Rightarrow> 'a \<Rightarrow> 'a list \<Rightarrow> 'a list" where
  "insert_desc key x [] = [x]"
| "insert_desc key x (y # ys) =
     (if ranks_before (key y) (key x) \<and> \<not> ranks_before (key x) (key y)
      then y # insert_desc key x ys
      else x # y # ys)"

definition stable_desc :: "('a \<Rightarrow> 's::linorder cell) \<Rightarrow> 'a list \<Rightarrow> 'a list" where
  "stable_desc key xs = foldr (insert_desc key) xs []"

text \<open>
  A sort that keeps the library's promise and is stable. It is used in the example runs
  only; nothing is claimed about how the library orders rows of equal score.
\<close>

definition stable_argsort :: "'s::linorder cell list \<Rightarrow> exn + nat list" where
  "stable_argsort ks =
     (if list_all numeric ks then Inr (stable_desc (\<lambda>i. ks ! i) [0..<length ks])
      else Inl TypeError)"

text \<open>Line 77: the ranked table is the first 50 rows of the sorted frame.\<close>

definition ranked_table ::
  "('s cell list \<Rightarrow> exn + nat list) \<Rightarrow> 's dataframe \<Rightarrow> exn + 's dataframe" where
  "ranked_table argsort results =
     (case sort_values argsort ''threat_score'' results of
        Inl e \<Rightarrow> Inl e
      | Inr ranked \<Rightarrow> Inr (head 50 ranked))"

text \<open>
  \<open>set_index(c)\<close> makes column \<open>c\<close> the row labels and drops it from the columns;
  indexing the result with a column label gives that column as a series, a list of
  (label, value) pairs. Both raise \<open>KeyError\<close> on a missing column.
\<close>

definition set_index :: "string \<Rightarrow> 's dataframe \<Rightarrow> exn + ('s cell list \<times> 's dataframe)" where
  "set_index c df =
     (if c \<notin> set (columns df) then Inl (KeyError c)
      else Inr (column_values c df,
                \<lparr>columns = removeAll c (columns df),
                 rows = map (filter (\<lambda>kv. fst kv \<noteq> c)) (rows df)\<rparr>))"

definition getitem :: "string \<Rightarrow> 's cell list \<Rightarrow> 's dataframe \<Rightarrow> exn + ('s cell \<times> 's cell) list" where
  "getitem c labels df =
     (if c \<notin> set (columns df) then Inl (KeyError c)
      else Inr (zip labels (column_values c df)))"

text \<open>Lines 90 to 92: the series handed to the bar chart.\<close>

definition chart_series ::
  "('s cell list \<Rightarrow> exn + nat list) \<Rightarrow> 's dataframe \<Rightarrow> exn + ('s cell \<times> 's cell) list" where
  "chart_series argsort results =
     (case sort_values argsort ''threat_score'' results of
        Inl e \<Rightarrow> Inl e
      | Inr ranked \<Rightarrow>
          (case set_index ''path'' (head 15 ranked) of
             Inl e \<Rightarrow> Inl e
           | Inr (labels, df) \<Rightarrow> getitem ''threat_score'' labels df))"

section \<open>The script\<close>

text \<open>
  What one run of the script puts on the page, in order. The long texts are shortened.
\<close>

datatype ('s, 'fig) ui =
    Title string
  | Write string
  | Subheader string
  | Info string
  | Success string
  | Warning string
  | Error string
  | Code exn
  | Markdown string
  | File_uploader string
  | Dataframe "'s dataframe"
  | Bar_chart "('s cell \<times> 's cell) list"
  | Selectbox string "'s cell list"
  | Button string
  | Pyplot 'fig

text \<open>How a run ends: at its last line, at \<open>st.stop()\<close>, or with an exception nobody caught.\<close>

datatype outcome = Finished | Stopped | Uncaught exn

text \<open>
  What a run depends on besides the script: the uploaded file and what \<open>pd.read_csv\<close>
  makes of it, the scoring pipeline, the library's sort, the operator's choice in the
  select box and whether the button was clicked, and the layout and drawing routines.
\<close>

record ('s, 'pos, 'fig) env =
  upload :: "(exn + 's dataframe) option"
  analyze_paths :: "'s dataframe \<Rightarrow> exn + 's dataframe"
  argsort_desc :: "'s cell list \<Rightarrow> exn + nat list"
  choice :: nat
  button :: bool
  spring_layout :: "pystr digraph \<Rightarrow> nat \<Rightarrow> exn + 'pos"
  draw :: "pystr digraph \<Rightarrow> 'pos \<Rightarrow> exn + 'fig"

text \<open>
  \<open>st.selectbox\<close> returns the chosen option, the first one by default, and \<open>None\<close> when
  there is no option.
\<close>

definition selectbox :: "'a list \<Rightarrow> nat \<Rightarrow> 'a option" where
  "selectbox options i =
     (if options = [] then None
      else if i < length options then Some (options ! i)
      else Some (options ! 0))"

text \<open>
  Lines 118 to 132, the body of the \<open>try\<close>. Only a string has \<open>split\<close>: on \<open>None\<close> or on a
  number the call raises \<open>AttributeError\<close>. The layout is asked for with the seed 42.
\<close>

definition render_graph ::
  "('s, 'pos, 'fig) env \<Rightarrow> 's cell option \<Rightarrow> exn + 'fig" where
  "render_graph e selected_path =
     (case selected_path of
        Some (Str s) \<Rightarrow>
          (case py_split s delim of
             Inl x \<Rightarrow> Inl x
           | Inr processes \<Rightarrow>
               (case build_graph processes of
                  Inl x \<Rightarrow> Inl x
                | Inr G \<Rightarrow>
                    (case spring_layout e G 42 of
                       Inl x \<Rightarrow> Inl x
                     | Inr pos \<Rightarrow> draw e G pos)))
      | _ \<Rightarrow> Inl AttributeError)"

text \<open>Lines 88 to 95: the chart, or the warning of the bare \<open>except\<close>.\<close>

definition chart_part :: "('s, 'pos, 'fig) env \<Rightarrow> 's dataframe \<Rightarrow> ('s, 'fig) ui list" where
  "chart_part e results =
     (case chart_series (argsort_desc e) results of
        Inl x \<Rightarrow> [Warning ''Could not create chart due to missing 'path' or 'threat_score' fields.'']
      | Inr series \<Rightarrow> [Bar_chart series])"

text \<open>Lines 107 to 138: the select box, the button and the graph, or the notice.\<close>

definition graph_part :: "('s, 'pos, 'fig) env \<Rightarrow> 's dataframe \<Rightarrow> ('s, 'fig) ui list" where
  "graph_part e results =
     (if ''path'' \<in> set (columns results)
      then (let options = column_values ''path'' results;
                selected_path = selectbox options (choice e)
            in [Selectbox ''Choose a process path'' options, Button ''Render Graph''] @
               (if button e
                then (case render_graph e selected_path of
                        Inr fig \<Rightarrow> [Pyplot fig]
                      | Inl x \<Rightarrow> [Error ''Could not render graph.'', Code x])
                else []))
      else [Info ''Column 'path' not found - graph visualisation skipped.''])"

text \<open>Lines 61 to 145: everything shown once the pipeline has returned \<open>results\<close>.\<close>

definition display ::
  "('s, 'pos, 'fig) env \<Rightarrow> 's dataframe \<Rightarrow> ('s, 'fig) ui list \<times> outcome" where
  "display e results =
     (let top = [Success ''Analysis completed!'',
                 Subheader ''Suspicious Process Paths (Ranked by Threat Score)'',
                 Write ''Each row represents an analyzed process chain.'']
      in case ranked_table (argsort_desc e) results of
           Inl x \<Rightarrow> (top, Uncaught x)
         | Inr table \<Rightarrow>
             (top @ [Dataframe table, Subheader ''Top 15 Threat Scores''] @
              chart_part e results @
              [Subheader ''Process Tree Graph (Optional Visualisation)'',
               Write ''Select a process path below to visualise it as a graph.''] @
              graph_part e results @
              [Markdown ''---'', Write ''Made for the Master Thesis project''],
              Finished))"

text \<open>Lines 16 to 59, and then the display.\<close>

definition app :: "('s, 'pos, 'fig) env \<Rightarrow> ('s, 'fig) ui list \<times> outcome" where
  "app e =
     (let intro = [Title ''Malicious Process Path Detection Dashboard'',
                   Write ''Upload a CSV file containing process logs.'',
                   File_uploader ''Upload a CSV log file'']
      in case upload e of
           None \<Rightarrow> (intro @ [Info ''Please upload a CSV file to begin analysis.''], Stopped)
         | Some (Inl x) \<Rightarrow> (intro @ [Error ''Failed to read CSV file.'', Code x], Stopped)
         | Some (Inr data) \<Rightarrow>
             (let preview = intro @ [Subheader ''Raw Data Preview'', Dataframe (head 50 data),
                                     Subheader ''Running Markov Chain Analysis...'']
              in case analyze_paths e data of
                   Inl x \<Rightarrow> (preview @ [Error ''Error while running the analysis pipeline.'',
                                         Code x], Stopped)
                 | Inr results \<Rightarrow>
                     (case display e results of (shown, out) \<Rightarrow> (preview @ shown, out))))"

text \<open>The options of the select boxes on a page, and the elements of the graph section
  that exist only when a path can be selected.\<close>

fun selectbox_options :: "('s, 'fig) ui list \<Rightarrow> 's cell list list" where
  "selectbox_options [] = []"
| "selectbox_options (Selectbox label options # us) = options # selectbox_options us"
| "selectbox_options (u # us) = selectbox_options us"

fun is_control :: "('s, 'fig) ui \<Rightarrow> bool" where
  "is_control (Selectbox label options) = True"
| "is_control (Button label) = True"
| "is_control (Pyplot fig) = True"
| "is_control u = False"

section \<open>Example inputs\<close>

text \<open>The path strings \<open>A \<rightarrow> B \<rightarrow> C\<close> and \<open>A \<rightarrow>  \<rightarrow> B\<close> (two delimiters in a row),
  as code points.\<close>

definition path_ABC :: pystr where
  "path_ABC = [65, 32, 8594, 32, 66, 32, 8594, 32, 67]"

definition path_A_gap_B :: pystr where
  "path_A_gap_B = [65, 32, 8594, 32, 32, 8594, 32, 66]"

definition G0 :: "nat digraph" where
  "G0 = \<lparr>nodes = [1, 2], edges = [(1, 2)]\<rparr>"

text \<open>Four rows: a repeated path, a tie and a missing score.\<close>

definition ex_results :: "int dataframe" where
  "ex_results =
     \<lparr>columns = [''path'', ''threat_score''],
      rows = [[(''path'', Str [65, 32, 8594, 32, 66]), (''threat_score'', Num 1)],
              [(''path'', Str [67]), (''threat_score'', Num 2)],
              [(''path'', Str [65, 32, 8594, 32, 66]), (''threat_score'', NaN)],
              [(''path'', Str [65, 32, 8594, 32, 66]), (''threat_score'', Num 1)]]\<rparr>"

text \<open>A result table without a \<open>path\<close> column.\<close>

definition no_path_results :: "int dataframe" where
  "no_path_results =
     \<lparr>columns = [''threat_score''],
      rows = [[(''threat_score'', Num 3)], [(''threat_score'', Num 5)]]\<rparr>"

text \<open>A run in which the library's sort happens to be stable, the operator keeps the
  first option and clicks the button, and layout and drawing succeed.\<close>

definition ex_env :: "(int, unit, pystr digraph) env" where
  "ex_env =
     \<lparr>upload = Some (Inr ex_results), analyze_paths = Inr, argsort_desc = stable_argsort,
      choice = 0, button = True, spring_layout = (\<lambda>G seed. Inr ()),
      draw = (\<lambda>G pos. Inr G)\<rparr>"

text \<open>A result table with a \<open>path\<close> column and no \<open>threat_score\<close> column, and a run whose
  pipeline returns it.\<close>

definition only_path_results :: "int dataframe" where
  "only_path_results =
     \<lparr>columns = [''path''], rows = [[(''path'', Str [65, 32, 8594, 32, 66])]]\<rparr>"

definition unscored_env :: "(int, unit, pystr digraph) env" where
  "unscored_env = ex_env\<lparr>analyze_paths := (\<lambda>data. Inr only_path_results)\<rparr>"

section \<open>Tokenizing: basic facts\<close>

lemma split_scan_nonempty: "split_scan sep cur s \<noteq> []"
  by (induction sep cur s rule: split_scan.induct) auto

lemma py_join_Cons: "ts \<noteq> [] \<Longrightarrow> py_join sep (t # ts) = t @ sep @ py_join sep ts"
  by (cases ts) auto

lemma join_split_scan: "py_join sep (split_scan sep cur s) = cur @ s"
proof (induction sep cur s rule: split_scan.induct)
  case (1 sep cur)
  show ?case by simp
next
  case (2 sep cur c cs)
  show ?case
  proof (cases "sep \<noteq> [] \<and> take (length sep) (c # cs) = sep")
    case True
    then have "py_join sep (split_scan sep cur (c # cs)) =
        cur @ sep @ py_join sep (split_scan sep [] (drop (length sep) (c # cs)))"
      by (simp add: py_join_Cons split_scan_nonempty)
    also have "\<dots> = cur @ take (length sep) (c # cs) @ drop (length sep) (c # cs)"
      using True 2 by simp
    finally show ?thesis by (simp only: append_take_drop_id)
  next
    case False
    then show ?thesis using 2 by auto
  qed
qed

lemma occurs_in_iff:
  "occurs_in sep t \<longleftrightarrow> (\<exists>i\<le>length t. take (length sep) (drop i t) = sep)"
proof (induction t)
  case Nil
  show ?case by auto
next
  case (Cons c cs)
  have "(\<exists>i\<le>length (c # cs). take (length sep) (drop i (c # cs)) = sep) \<longleftrightarrow>
      take (length sep) (c # cs) = sep \<or> (\<exists>i\<le>length cs. take (length sep) (drop i cs) = sep)"
    (is "?L \<longleftrightarrow> ?R")
  proof
    assume ?L
    then obtain i where i: "i \<le> length (c # cs)" "take (length sep) (drop i (c # cs)) = sep"
      by blast
    show ?R
    proof (cases i)
      case 0
      with i show ?thesis by simp
    next
      case (Suc j)
      with i have "j \<le> length cs" "take (length sep) (drop j cs) = sep" by simp_all
      then show ?thesis by blast
    qed
  next
    assume ?R
    then show ?L
    proof
      assume "take (length sep) (c # cs) = sep"
      then have "take (length sep) (drop 0 (c # cs)) = sep" by simp
      then show ?L by blast
    next
      assume "\<exists>i\<le>length cs. take (length sep) (drop i cs) = sep"
      then obtain j where "j \<le> length cs" "take (length sep) (drop j cs) = sep" by blast
      then have "Suc j \<le> length (c # cs)" "take (length sep) (drop (Suc j) (c # cs)) = sep"
        by simp_all
      then show ?L by blast
    qed
  qed
  with Cons show ?case by simp
qed

lemma occurs_in_prefix:
  assumes "sep \<noteq> []" and "occurs_in sep cur"
  shows "\<exists>i<length cur. take (length sep) (drop i (cur @ s)) = sep"
proof -
  from assms(2) obtain i where i: "i \<le> length cur" "take (length sep) (drop i cur) = sep"
    by (auto simp: occurs_in_iff)
  have "length (take (length sep) (drop i cur)) = length sep"
    by (simp only: i(2))
  then have len: "length sep \<le> length cur - i"
    by simp
  with assms(1) have "i < length cur"
    by (cases "i = length cur") (use i(1) in auto)
  moreover have "take (length sep) (drop i (cur @ s)) = sep"
    using i len by simp
  ultimately show ?thesis by blast
qed

lemma split_scan_no_sep:
  "sep \<noteq> [] \<Longrightarrow> \<forall>i<length cur. take (length sep) (drop i (cur @ s)) \<noteq> sep \<Longrightarrow>
   t \<in> set (split_scan sep cur s) \<Longrightarrow> \<not> occurs_in sep t"
proof (induction sep cur s rule: split_scan.induct)
  case (1 sep cur)
  then show ?case using occurs_in_prefix [of sep cur "[]"] by auto
next
  case (2 sep cur c cs)
  show ?case
  proof (cases "take (length sep) (c # cs) = sep")
    case True
    with 2(3,5) have "t = cur \<or> t \<in> set (split_scan sep [] (drop (length sep) (c # cs)))"
      by simp
    then show ?thesis
    proof
      assume "t = cur"
      then show ?thesis using occurs_in_prefix [of sep cur "c # cs"] 2(3,4) by blast
    next
      assume "t \<in> set (split_scan sep [] (drop (length sep) (c # cs)))"
      then show ?thesis using 2(1) [of ] True 2(3) by simp
    qed
  next
    case False
    have inv: "\<forall>i<length (cur @ [c]). take (length sep) (drop i ((cur @ [c]) @ cs)) \<noteq> sep"
    proof (intro allI impI)
      fix i assume "i < length (cur @ [c])"
      then consider "i < length cur" | "i = length cur" by fastforce
      then show "take (length sep) (drop i ((cur @ [c]) @ cs)) \<noteq> sep"
      proof cases
        case 1
        then show ?thesis using 2(4) by simp
      next
        case 2
        then show ?thesis using False by simp
      qed
    qed
    from False 2(5) have "t \<in> set (split_scan sep (cur @ [c]) cs)" by simp
    then show ?thesis using 2(2) [OF _ 2(3) inv] False by simp
  qed
qed

lemma split_scan_single:
  "sep \<noteq> [] \<Longrightarrow> \<not> occurs_in sep s \<Longrightarrow> split_scan sep cur s = [cur @ s]"
  by (induction s arbitrary: cur) auto

section \<open>Graph building: basic facts\<close>

lemma for_each_loop_body:
  "for_each (loop_body (pre @ ps)) G (enumerate (length pre) ps) = Inr (chain_loop ps G)"
proof (induction ps G arbitrary: pre rule: chain_loop.induct)
  case (1 G)
  show ?case by simp
next
  case (2 p G)
  show ?case by (simp add: loop_body_def)
next
  case (3 p q ps G)
  have step: "loop_body (pre @ p # q # ps) G (length pre, p) = Inr (add_edge p q (add_node p G))"
    by (simp add: loop_body_def item_def nth_append)
  have "for_each (loop_body (pre @ p # q # ps)) G (enumerate (length pre) (p # q # ps)) =
      for_each (loop_body ((pre @ [p]) @ q # ps)) (add_edge p q (add_node p G))
        (enumerate (length (pre @ [p])) (q # ps))"
    by (simp add: step)
  also have "\<dots> = Inr (chain_loop (q # ps) (add_edge p q (add_node p G)))"
    by (rule 3)
  finally show ?case by simp
qed

lemma build_graph_chain_loop: "build_graph ps = Inr (chain_loop ps DiGraph)"
  using for_each_loop_body [of "[]" ps DiGraph] by (simp add: build_graph_def)

lemma nodes_add_node: "set (nodes (add_node n G)) = insert n (set (nodes G))"
  by (auto simp: add_node_def)

lemma edges_add_node: "edges (add_node n G) = edges G"
  by (simp add: add_node_def)

lemma distinct_add_node: "distinct (nodes G) \<Longrightarrow> distinct (nodes (add_node n G))"
  by (simp add: add_node_def)

lemma length_add_node: "length (nodes (add_node n G)) \<le> Suc (length (nodes G))"
  by (simp add: add_node_def)

lemma nodes_add_edge: "set (nodes (add_edge u v G)) = insert u (insert v (set (nodes G)))"
  by (auto simp: add_edge_def Let_def nodes_add_node)

lemma distinct_nodes_add_edge: "distinct (nodes G) \<Longrightarrow> distinct (nodes (add_edge u v G))"
  by (simp add: add_edge_def Let_def distinct_add_node)

lemma edges_add_edge: "set (edges (add_edge u v G)) = insert (u, v) (set (edges G))"
  by (auto simp: add_edge_def Let_def edges_add_node)

lemma distinct_edges_add_edge: "distinct (edges G) \<Longrightarrow> distinct (edges (add_edge u v G))"
  by (simp add: add_edge_def Let_def edges_add_node)

lemma length_edges_add_edge: "length (edges (add_edge u v G)) \<le> Suc (length (edges G))"
  by (simp add: add_edge_def Let_def edges_add_node)

lemma set_nodes_chain_loop: "set (nodes (chain_loop ps G)) = set (nodes G) \<union> set ps"
  by (induction ps G rule: chain_loop.induct) (auto simp: nodes_add_node nodes_add_edge)

lemma set_edges_chain_loop: "set (edges (chain_loop ps G)) = set (edges G) \<union> set (pairs_of ps)"
  by (induction ps G rule: chain_loop.induct) (auto simp: edges_add_node edges_add_edge)

lemma distinct_nodes_chain_loop: "distinct (nodes G) \<Longrightarrow> distinct (nodes (chain_loop ps G))"
  by (induction ps G rule: chain_loop.induct)
    (auto simp: distinct_add_node distinct_nodes_add_edge)

lemma distinct_edges_chain_loop: "distinct (edges G) \<Longrightarrow> distinct (edges (chain_loop ps G))"
  by (induction ps G rule: chain_loop.induct)
    (auto simp: edges_add_node distinct_edges_add_edge)

lemma length_pairs_of: "length (pairs_of ps) = length ps - 1"
  by (induction ps rule: pairs_of.induct) auto

lemma card_nodes_chain_loop:
  "distinct (nodes G) \<Longrightarrow> length (nodes (chain_loop ps G)) = card (set (nodes G) \<union> set ps)"
  using distinct_nodes_chain_loop [of G ps] set_nodes_chain_loop [of ps G]
  by (metis distinct_card)

lemma card_edges_chain_loop:
  "distinct (edges G) \<Longrightarrow>
   length (edges (chain_loop ps G)) = card (set (edges G) \<union> set (pairs_of ps))"
  using distinct_edges_chain_loop [of G ps] set_edges_chain_loop [of ps G]
  by (metis distinct_card)

lemma length_nodes_chain: "length (nodes (chain_loop ts DiGraph)) \<le> length ts"
proof -
  have "length (nodes (chain_loop ts DiGraph)) = card (set ts)"
    using card_nodes_chain_loop [of DiGraph ts] by (simp add: DiGraph_def)
  then show ?thesis by (simp add: card_length)
qed

lemma length_edges_chain: "length (edges (chain_loop ts DiGraph)) \<le> length ts - 1"
proof -
  have "length (edges (chain_loop ts DiGraph)) = card (set (pairs_of ts))"
    using card_edges_chain_loop [of DiGraph ts] by (simp add: DiGraph_def)
  also have "\<dots> \<le> length (pairs_of ts)" by (rule card_length)
  finally show ?thesis by (simp add: length_pairs_of)
qed

text \<open>
  A path string without the delimiter is one token; its graph is one node and no edge, and
  that graph is what the layout routine is called with.
\<close>

lemma single_token_graph:
  assumes "\<not> occurs_in delim s"
  shows "py_split s delim = Inr [s] \<and>
    build_graph [s] = Inr \<lparr>nodes = [s], edges = []\<rparr> \<and>
    render_graph e (Some (Str s)) =
      (case spring_layout e \<lparr>nodes = [s], edges = []\<rparr> 42 of
         Inl x \<Rightarrow> Inl x
       | Inr pos \<Rightarrow> draw e \<lparr>nodes = [s], edges = []\<rparr> pos)"
proof -
  have ne: "delim \<noteq> []" by (simp add: delim_def)
  have t: "py_split s delim = Inr [s]"
    using ne split_scan_single [OF ne assms, of "[]"] by (simp add: py_split_def)
  have g: "build_graph [s] = Inr \<lparr>nodes = [s], edges = []\<rparr>"
    by (simp add: build_graph_chain_loop add_node_def DiGraph_def)
  show ?thesis using t g by (simp add: render_graph_def)
qed

section \<open>Sorting: basic facts\<close>

lemma ranks_before_trans:
  "ranks_before a b \<Longrightarrow> ranks_before b c \<Longrightarrow> ranks_before a c"
  by (cases a; cases b; cases c) auto

lemma ranks_before_total:
  "numeric a \<Longrightarrow> numeric b \<Longrightarrow> ranks_before a b \<or> ranks_before b a"
  by (cases a; cases b) auto

lemma mset_insert_desc: "mset (insert_desc key x ys) = add_mset x (mset ys)"
  by (induction ys) auto

lemma mset_stable_desc: "mset (stable_desc key xs) = mset xs"
  by (induction xs) (auto simp: stable_desc_def mset_insert_desc)

lemma set_insert_desc: "set (insert_desc key x ys) = insert x (set ys)"
  using mset_insert_desc [of key x ys] by (metis set_mset_add_mset_insert set_mset_mset)

lemma sorted_insert_desc:
  assumes "numeric (key x)" and "\<forall>y\<in>set ys. numeric (key y)"
    and "sorted_wrt (\<lambda>a b. ranks_before (key a) (key b)) ys"
  shows "sorted_wrt (\<lambda>a b. ranks_before (key a) (key b)) (insert_desc key x ys)"
  using assms(2,3)
proof (induction ys)
  case Nil
  show ?case by simp
next
  case (Cons y ys)
  show ?case
  proof (cases "ranks_before (key y) (key x) \<and> \<not> ranks_before (key x) (key y)")
    case True
    then show ?thesis using Cons by (auto simp: set_insert_desc)
  next
    case False
    have xy: "ranks_before (key x) (key y)"
      using False ranks_before_total [of "key x" "key y"] assms(1) Cons.prems(1) by auto
    have "\<forall>z\<in>set ys. ranks_before (key x) (key z)"
      using xy Cons.prems(2) ranks_before_trans by fastforce
    with xy False Cons.prems(2) show ?thesis by simp
  qed
qed

lemma sorted_stable_desc:
  "\<forall>x\<in>set xs. numeric (key x) \<Longrightarrow>
   sorted_wrt (\<lambda>a b. ranks_before (key a) (key b)) (stable_desc key xs)"
proof (induction xs)
  case Nil
  show ?case by (simp add: stable_desc_def)
next
  case (Cons x xs)
  have sub: "\<forall>y\<in>set (stable_desc key xs). numeric (key y)"
    using Cons.prems mset_stable_desc [of key xs] by (metis list.set_intros(2) set_mset_mset)
  have "stable_desc key (x # xs) = insert_desc key x (stable_desc key xs)"
    by (simp add: stable_desc_def)
  then show ?case using sorted_insert_desc [OF _ sub] Cons by simp
qed

lemma numeric_nth: "list_all numeric ks \<Longrightarrow> i < length ks \<Longrightarrow> numeric (ks ! i)"
  by (simp add: list_all_length)

lemma sort_contract_stable: "sort_contract stable_argsort"
  unfolding sort_contract_def
proof (intro allI impI)
  fix ks :: "'a cell list"
  assume num: "list_all numeric ks"
  have "\<forall>i\<in>set [0..<length ks]. numeric (ks ! i)"
    using num by (simp add: numeric_nth)
  then have "sorted_wrt (\<lambda>a b. ranks_before (ks ! a) (ks ! b))
      (stable_desc (\<lambda>i. ks ! i) [0..<length ks])"
    by (rule sorted_stable_desc)
  then show "case stable_argsort ks of Inl e \<Rightarrow> False
      | Inr ix \<Rightarrow> mset ix = mset [0..<length ks] \<and>
                 sorted_wrt ranks_before (map (\<lambda>i. ks ! i) ix)"
    using num by (simp add: stable_argsort_def mset_stable_desc sorted_wrt_map)
qed

lemma perm_rows:
  assumes "mset ix = mset [0..<length xs]"
  shows "mset (map (\<lambda>i. xs ! i) ix) = mset xs"
proof -
  have "mset (map (\<lambda>i. xs ! i) ix) = image_mset (\<lambda>i. xs ! i) (mset ix)" by simp
  also have "\<dots> = mset (map (\<lambda>i. xs ! i) [0..<length xs])" by (simp add: assms)
  also have "\<dots> = mset xs" by (simp add: map_nth)
  finally show ?thesis .
qed

text \<open>
  What the sorts of lines 77 and 90 give for a sort that keeps the library's promise on a
  numeric column: a rearrangement of the rows in which the scores descend and the rows
  without a score come last. Which of two rows of equal score comes first is the
  library's choice; the script asks for no stable sort, and nothing here fixes that order.
\<close>

lemma sort_values_contract:
  assumes "sort_contract argsort" and "by \<in> set (columns df)"
    and "list_all numeric (column_values by df)"
  shows "\<exists>ranked. sort_values argsort by df = Inr (df\<lparr>rows := ranked\<rparr>) \<and>
           mset ranked = mset (rows df) \<and>
           sorted_wrt ranks_before (map (\<lambda>r. cell_at r by) ranked)"
proof -
  let ?ks = "column_values by df"
  from assms(1) have "list_all numeric ?ks \<longrightarrow>
      (case argsort ?ks of Inl e \<Rightarrow> False
       | Inr ix \<Rightarrow> mset ix = mset [0..<length ?ks] \<and>
                  sorted_wrt ranks_before (map (\<lambda>i. ?ks ! i) ix))"
    unfolding sort_contract_def by (rule spec)
  with assms(3) obtain ix where ix: "argsort ?ks = Inr ix" "mset ix = mset [0..<length ?ks]"
      "sorted_wrt ranks_before (map (\<lambda>i. ?ks ! i) ix)"
    by (cases "argsort ?ks") simp_all
  have len: "length ?ks = length (rows df)" by (simp add: column_values_def)
  have bound: "\<forall>i\<in>set ix. i < length (rows df)"
    using ix(2) len by (metis atLeastLessThan_iff set_mset_mset set_upt)
  have keys: "map (\<lambda>r. cell_at r by) (map (\<lambda>i. rows df ! i) ix) = map (\<lambda>i. ?ks ! i) ix"
    using bound by (simp add: column_values_def)
  have "sort_values argsort by df = Inr (df\<lparr>rows := map (\<lambda>i. rows df ! i) ix\<rparr>)"
    using assms(2) ix(1) by (simp add: sort_values_def)
  moreover have "mset (map (\<lambda>i. rows df ! i) ix) = mset (rows df)"
  proof (rule perm_rows)
    show "mset ix = mset [0..<length (rows df)]" using ix(2) len by (simp only:)
  qed
  moreover have "sorted_wrt ranks_before (map (\<lambda>r. cell_at r by) (map (\<lambda>i. rows df ! i) ix))"
    using ix(3) by (simp only: keys)
  ultimately show ?thesis by blast
qed

lemma map_of_drop_key:
  "k \<noteq> c \<Longrightarrow> map_of (filter (\<lambda>kv. fst kv \<noteq> c) r) k = map_of r k"
  by (induction r) auto

lemma cell_at_drop_key:
  "k \<noteq> c \<Longrightarrow> cell_at (filter (\<lambda>kv. fst kv \<noteq> c) r) k = cell_at r k"
  by (simp add: cell_at_def map_of_drop_key)

lemma columns_sort_values:
  "sort_values argsort by df = Inr ranked \<Longrightarrow> columns ranked = columns df"
  by (auto simp: sort_values_def split: if_splits sum.splits)

text \<open>
  Both views are cut from the frame the sort returns: the table is its first 50 rows, and
  the chart is fed the paths and scores of its first 15 rows.
\<close>

lemma ranked_table_Inr:
  "sort_values argsort ''threat_score'' results = Inr ranked \<Longrightarrow>
   ranked_table argsort results = Inr (ranked\<lparr>rows := take 50 (rows ranked)\<rparr>)"
  by (simp add: ranked_table_def head_def)

lemma chart_series_Inr:
  assumes "sort_values argsort ''threat_score'' results = Inr ranked"
    and "''path'' \<in> set (columns results)"
  shows "chart_series argsort results =
     Inr (map (\<lambda>r. (cell_at r ''path'', cell_at r ''threat_score'')) (take 15 (rows ranked)))"
proof -
  have cols: "columns ranked = columns results"
    using assms(1) by (rule columns_sort_values)
  have ts: "''threat_score'' \<in> set (columns results)"
    using assms(1) by (auto simp: sort_values_def split: if_splits)
  have "zip (map (\<lambda>r. cell_at r ''path'') rs)
          (map (\<lambda>r. cell_at r ''threat_score'') (map (filter (\<lambda>kv. fst kv \<noteq> ''path'')) rs)) =
        map (\<lambda>r. (cell_at r ''path'', cell_at r ''threat_score'')) rs" for rs :: "'a row list"
    by (induction rs) (simp_all add: cell_at_drop_key)
  then show ?thesis
    using assms cols ts
    by (simp add: chart_series_def set_index_def getitem_def head_def column_values_def)
qed

section \<open>Tokenizing and building the chain graph\<close>

text \<open>
  C5. Splitting the path string \<open>A \<rightarrow> B \<rightarrow> C\<close> at the delimiter gives the tokens \<open>A\<close>, \<open>B\<close>,
  \<open>C\<close> in this order, and the loop of lines 123 to 127 builds from them a graph with
  exactly the three nodes \<open>A\<close>, \<open>B\<close>, \<open>C\<close> and exactly the two edges \<open>A \<rightarrow> B\<close> and \<open>B \<rightarrow> C\<close>.
\<close>

theorem tokenize_build_ABC:
  "py_split path_ABC delim = Inr [[65], [66], [67]] \<and>
   build_graph [[65], [66], [67::nat]] =
     Inr \<lparr>nodes = [[65], [66], [67]], edges = [([65], [66]), ([66], [67])]\<rparr> \<and>
   length (nodes (projr (build_graph [[65], [66], [67::nat]]))) = 3 \<and>
   length (edges (projr (build_graph [[65], [66], [67::nat]]))) = 2"
  by (simp add: py_split_def path_ABC_def delim_def build_graph_chain_loop add_node_def
      add_edge_def DiGraph_def)

text \<open>
  C6. Building the graph removes duplicates and is bounded. Adding a node that is already
  there changes nothing, adding a pair that is already there adds no edge; building never
  raises, the nodes of the built graph are the tokens and its edges the consecutive pairs,
  each stored once, so there are at most as many nodes, and at most as many edges, as
  tokens. The tokens \<open>A\<close>, \<open>A\<close> give the single node \<open>A\<close> and the single edge \<open>A \<rightarrow> A\<close>.
\<close>

theorem graph_dedup_bounded:
  "(p \<in> set (nodes G) \<longrightarrow> add_node p G = G) \<and>
   ((u, v) \<in> set (edges G) \<longrightarrow> edges (add_edge u v G) = edges G) \<and>
   (\<exists>B. build_graph ts = Inr B \<and>
        set (nodes B) = set ts \<and> set (edges B) = set (pairs_of ts) \<and>
        distinct (nodes B) \<and> distinct (edges B) \<and>
        length (nodes B) \<le> length ts \<and> length (edges B) \<le> length ts) \<and>
   build_graph [a, a] = Inr \<lparr>nodes = [a], edges = [(a, a)]\<rparr>"
proof (intro conjI)
  show "p \<in> set (nodes G) \<longrightarrow> add_node p G = G"
    by (simp add: add_node_def)
  show "(u, v) \<in> set (edges G) \<longrightarrow> edges (add_edge u v G) = edges G"
    by (simp add: add_edge_def Let_def edges_add_node)
  show "\<exists>B. build_graph ts = Inr B \<and>
        set (nodes B) = set ts \<and> set (edges B) = set (pairs_of ts) \<and>
        distinct (nodes B) \<and> distinct (edges B) \<and>
        length (nodes B) \<le> length ts \<and> length (edges B) \<le> length ts"
  proof (intro exI conjI)
    show "build_graph ts = Inr (chain_loop ts DiGraph)"
      by (rule build_graph_chain_loop)
    show "set (nodes (chain_loop ts DiGraph)) = set ts"
      by (simp add: set_nodes_chain_loop DiGraph_def)
    show "set (edges (chain_loop ts DiGraph)) = set (pairs_of ts)"
      by (simp add: set_edges_chain_loop DiGraph_def)
    show "distinct (nodes (chain_loop ts DiGraph))"
      by (simp add: distinct_nodes_chain_loop DiGraph_def)
    show "distinct (edges (chain_loop ts DiGraph))"
      by (simp add: distinct_edges_chain_loop DiGraph_def)
    show "length (nodes (chain_loop ts DiGraph)) \<le> length ts"
      by (rule length_nodes_chain)
    show "length (edges (chain_loop ts DiGraph)) \<le> length ts"
      using length_edges_chain [of ts] by simp
  qed
  show "build_graph [a, a] = Inr \<lparr>nodes = [a], edges = [(a, a)]\<rparr>"
    by (simp add: build_graph_chain_loop add_node_def add_edge_def DiGraph_def)
qed

theorem graph_dedup_bounded_witness:
  "(1::nat) \<in> set (nodes G0) \<and> add_node 1 G0 = G0 \<and>
   (1, 2) \<in> set (edges G0) \<and> edges (add_edge 1 2 G0) = edges G0 \<and>
   build_graph [1, 2, 1, 2::nat] = Inr \<lparr>nodes = [1, 2], edges = [(1, 2), (2, 1)]\<rparr> \<and>
   (\<exists>B. build_graph [1, 2, 1, 2::nat] = Inr B \<and>
        length (nodes B) \<le> length [1, 2, 1, 2::nat] \<and>
        length (edges B) \<le> length [1, 2, 1, 2::nat]) \<and>
   build_graph [1, 1::nat] = Inr \<lparr>nodes = [1], edges = [(1, 1)]\<rparr>"
proof -
  have n: "(1::nat) \<in> set (nodes G0)" and e: "(1::nat, 2::nat) \<in> set (edges G0)"
    by (simp_all add: G0_def)
  have g: "build_graph [1, 2, 1, 2::nat] = Inr \<lparr>nodes = [1, 2], edges = [(1, 2), (2, 1)]\<rparr>"
    by (simp add: build_graph_chain_loop add_node_def add_edge_def DiGraph_def)
  show ?thesis
    using graph_dedup_bounded [where p = "1::nat" and G = G0 and u = "1::nat" and v = "2::nat"
        and ts = "[1, 2, 1, 2::nat]" and a = "1::nat"] n e g
    by simp
qed

text \<open>
  C2, as the specification states it, fails: \<open>split\<close> raises nothing and trims nothing.
  The empty string gives one empty token, a string of blanks gives itself, two delimiters
  in a row give an empty token between them, and blanks around a token stay.
\<close>

theorem tokenize_invalid_counterexample:
  "py_split [] delim = Inr [[]] \<and>
   py_split [32, 32] delim = Inr [[32, 32]] \<and>
   py_split path_A_gap_B delim = Inr [[65], [], [66]] \<and>
   py_split [32, 65, 32] delim = Inr [[32, 65, 32]]"
  by (simp add: py_split_def delim_def path_A_gap_B_def)

text \<open>
  C2, amended. For every path string the tokenizer succeeds: it returns a non-empty list
  of pieces, in their order in the string, such that joining the pieces with the
  delimiter gives the string back and no piece contains the delimiter. The pieces are
  neither trimmed nor required to be non-empty.
\<close>

theorem tokenize_pieces:
  "\<exists>ts. py_split s delim = Inr ts \<and> ts \<noteq> [] \<and> py_join delim ts = s \<and>
        (\<forall>t\<in>set ts. \<not> occurs_in delim t)"
proof -
  have ne: "delim \<noteq> []" by (simp add: delim_def)
  have "py_split s delim = Inr (split_scan delim [] s)"
    using ne by (simp add: py_split_def)
  moreover have "split_scan delim [] s \<noteq> []" by (rule split_scan_nonempty)
  moreover have "py_join delim (split_scan delim [] s) = s"
    by (simp add: join_split_scan)
  moreover have "\<forall>t\<in>set (split_scan delim [] s). \<not> occurs_in delim t"
    using split_scan_no_sep [OF ne, of "[]" s] by simp
  ultimately show ?thesis by blast
qed

theorem tokenize_pieces_witness:
  "py_split path_ABC delim = Inr [[65], [66], [67]] \<and>
   py_join delim [[65], [66], [67]] = path_ABC \<and>
   \<not> occurs_in delim [65] \<and> \<not> occurs_in delim [66] \<and> \<not> occurs_in delim [67]"
proof -
  have ev: "py_split path_ABC delim = Inr [[65], [66], [67]]"
    by (simp add: py_split_def delim_def path_ABC_def)
  from tokenize_pieces [of path_ABC] obtain ts where
    ts: "py_split path_ABC delim = Inr ts" "py_join delim ts = path_ABC"
      "\<forall>t\<in>set ts. \<not> occurs_in delim t"
    by blast
  from ts(1) ev have "ts = [[65], [66], [67]]" by simp
  with ts ev show ?thesis by simp
qed

section \<open>Missing columns\<close>

text \<open>
  C8. For every result table that lacks a \<open>path\<close> column, once the ranking of line 77 has
  succeeded (the \<open>threat_score\<close> column is there and can be sorted), the page shows the
  ranked table, then the chart's warning, then the notice that the column was not found;
  the run reaches its last line, and neither the select box nor the button nor a graph is
  shown.
\<close>

theorem no_path_notice:
  assumes "''path'' \<notin> set (columns results)"
    and "ranked_table (argsort_desc e) results = Inr table"
  shows "display e results =
     ([Success ''Analysis completed!'',
       Subheader ''Suspicious Process Paths (Ranked by Threat Score)'',
       Write ''Each row represents an analyzed process chain.'',
       Dataframe table,
       Subheader ''Top 15 Threat Scores'',
       Warning ''Could not create chart due to missing 'path' or 'threat_score' fields.'',
       Subheader ''Process Tree Graph (Optional Visualisation)'',
       Write ''Select a process path below to visualise it as a graph.'',
       Info ''Column 'path' not found - graph visualisation skipped.'',
       Markdown ''---'', Write ''Made for the Master Thesis project''],
      Finished) \<and>
    filter is_control (fst (display e results)) = []"
proof -
  from assms(2) obtain ranked where
    r: "sort_values (argsort_desc e) ''threat_score'' results = Inr ranked"
    by (auto simp: ranked_table_def split: sum.splits)
  have "columns (head 15 ranked) = columns results"
    using columns_sort_values [OF r] by (simp add: head_def)
  then have "chart_series (argsort_desc e) results = Inl (KeyError ''path'')"
    using assms(1) r by (simp add: chart_series_def set_index_def)
  then have "chart_part e results =
      [Warning ''Could not create chart due to missing 'path' or 'threat_score' fields.'']"
    by (simp add: chart_part_def)
  moreover have "graph_part e results =
      [Info ''Column 'path' not found - graph visualisation skipped.'']"
    using assms(1) by (simp add: graph_part_def)
  ultimately have "display e results =
     ([Success ''Analysis completed!'',
       Subheader ''Suspicious Process Paths (Ranked by Threat Score)'',
       Write ''Each row represents an analyzed process chain.'',
       Dataframe table,
       Subheader ''Top 15 Threat Scores'',
       Warning ''Could not create chart due to missing 'path' or 'threat_score' fields.'',
       Subheader ''Process Tree Graph (Optional Visualisation)'',
       Write ''Select a process path below to visualise it as a graph.'',
       Info ''Column 'path' not found - graph visualisation skipped.'',
       Markdown ''---'', Write ''Made for the Master Thesis project''],
      Finished)"
    using assms(2) by (simp add: display_def)
  then show ?thesis by simp
qed

theorem no_path_notice_witness:
  "''path'' \<notin> set (columns no_path_results) \<and>
   ranked_table (argsort_desc ex_env) no_path_results =
     Inr \<lparr>columns = [''threat_score''],
          rows = [[(''threat_score'', Num 5)], [(''threat_score'', Num 3)]]\<rparr> \<and>
   display ex_env no_path_results =
     ([Success ''Analysis completed!'',
       Subheader ''Suspicious Process Paths (Ranked by Threat Score)'',
       Write ''Each row represents an analyzed process chain.'',
       Dataframe \<lparr>columns = [''threat_score''],
          rows = [[(''threat_score'', Num 5)], [(''threat_score'', Num 3)]]\<rparr>,
       Subheader ''Top 15 Threat Scores'',
       Warning ''Could not create chart due to missing 'path' or 'threat_score' fields.'',
       Subheader ''Process Tree Graph (Optional Visualisation)'',
       Write ''Select a process path below to visualise it as a graph.'',
       Info ''Column 'path' not found - graph visualisation skipped.'',
       Markdown ''---'', Write ''Made for the Master Thesis project''],
      Finished) \<and>
   filter is_control (fst (display ex_env no_path_results)) = []"
proof -
  have p: "''path'' \<notin> set (columns no_path_results)"
    by (simp add: no_path_results_def)
  have t: "ranked_table (argsort_desc ex_env) no_path_results =
     Inr \<lparr>columns = [''threat_score''],
          rows = [[(''threat_score'', Num 5)], [(''threat_score'', Num 3)]]\<rparr>"
    by (simp add: ranked_table_def sort_values_def column_values_def cell_at_def
        stable_argsort_def stable_desc_def head_def no_path_results_def ex_env_def)
  show ?thesis
    using no_path_notice [OF p t] p t by simp
qed

text \<open>
  C10. The stages of the display work on copies: whatever the sort does, when the table has
  a \<open>path\<close> column and the ranking succeeds, the page has exactly one select box, and its
  options are the \<open>path\<close> values of the pipeline's rows in the pipeline's order, repeated
  values included.
\<close>

theorem selectbox_original_order:
  assumes "''path'' \<in> set (columns results)"
    and "ranked_table (argsort_desc e) results = Inr table"
  shows "selectbox_options (fst (display e results)) =
      [map (\<lambda>r. cell_at r ''path'') (rows results)] \<and>
    snd (display e results) = Finished"
proof -
  have c: "selectbox_options (chart_part e results) = []"
    by (simp add: chart_part_def split: sum.splits)
  have g: "selectbox_options (graph_part e results) =
      [map (\<lambda>r. cell_at r ''path'') (rows results)]"
    using assms(1)
    by (simp add: graph_part_def Let_def column_values_def split: sum.splits)
  have app: "selectbox_options (us @ vs) = selectbox_options us @ selectbox_options vs"
    for us vs :: "('a, 'c) ui list"
    by (induction us rule: selectbox_options.induct) simp_all
  show ?thesis
    using assms(2) c g by (simp add: display_def app)
qed

theorem selectbox_original_order_witness:
  "''path'' \<in> set (columns ex_results) \<and>
   column_values ''path'' (projr (ranked_table (argsort_desc ex_env) ex_results)) =
     [Str [67], Str [65, 32, 8594, 32, 66], Str [65, 32, 8594, 32, 66],
      Str [65, 32, 8594, 32, 66]] \<and>
   selectbox_options (fst (display ex_env ex_results)) =
     [[Str [65, 32, 8594, 32, 66], Str [67], Str [65, 32, 8594, 32, 66],
       Str [65, 32, 8594, 32, 66]]] \<and>
   snd (display ex_env ex_results) = Finished"
proof -
  have p: "''path'' \<in> set (columns ex_results)"
    by (simp add: ex_results_def)
  have t: "ranked_table (argsort_desc ex_env) ex_results =
     Inr (ex_results\<lparr>rows :=
       [[(''path'', Str [67]), (''threat_score'', Num 2)],
        [(''path'', Str [65, 32, 8594, 32, 66]), (''threat_score'', Num 1)],
        [(''path'', Str [65, 32, 8594, 32, 66]), (''threat_score'', Num 1)],
        [(''path'', Str [65, 32, 8594, 32, 66]), (''threat_score'', NaN)]]\<rparr>)"
    by (simp add: ranked_table_def sort_values_def column_values_def cell_at_def
        stable_argsort_def stable_desc_def head_def ex_results_def ex_env_def)
  have o: "map (\<lambda>r. cell_at r ''path'') (rows ex_results) =
     [Str [65, 32, 8594, 32, 66], Str [67], Str [65, 32, 8594, 32, 66],
      Str [65, 32, 8594, 32, 66]]"
    by (simp add: ex_results_def cell_at_def)
  have r: "column_values ''path'' (projr (ranked_table (argsort_desc ex_env) ex_results)) =
     [Str [67], Str [65, 32, 8594, 32, 66], Str [65, 32, 8594, 32, 66],
      Str [65, 32, 8594, 32, 66]]"
    by (simp add: t column_values_def cell_at_def)
  show ?thesis
    using selectbox_original_order [OF p t] p o r by simp
qed

text \<open>
  C3. When the pipeline's table has a \<open>path\<close> column and no \<open>threat_score\<close> column, the raw
  preview is shown, but the sort of line 77 raises \<open>KeyError\<close> outside any \<open>try\<close>: the run
  ends there, without a warning and without the select box, although the chart's own
  handler would have turned the same missing column into its warning.
\<close>

theorem missing_score_aborts:
  "app unscored_env =
     ([Title ''Malicious Process Path Detection Dashboard'',
       Write ''Upload a CSV file containing process logs.'',
       File_uploader ''Upload a CSV log file'',
       Subheader ''Raw Data Preview'', Dataframe (head 50 ex_results),
       Subheader ''Running Markov Chain Analysis...'',
       Success ''Analysis completed!'',
       Subheader ''Suspicious Process Paths (Ranked by Threat Score)'',
       Write ''Each row represents an analyzed process chain.''],
      Uncaught (KeyError ''threat_score'')) \<and>
   chart_part unscored_env only_path_results =
     [Warning ''Could not create chart due to missing 'path' or 'threat_score' fields.''] \<and>
   selectbox_options (graph_part unscored_env only_path_results) =
     [[Str [65, 32, 8594, 32, 66]]]"
  by (simp add: app_def display_def ranked_table_def sort_values_def chart_part_def
      chart_series_def graph_part_def column_values_def cell_at_def selectbox_def
      render_graph_def py_split_def delim_def build_graph_chain_loop add_node_def
      add_edge_def DiGraph_def unscored_env_def ex_env_def only_path_results_def)

end
